theory Spec2Isabelle
  imports Main "HOL-Library.Sublist"
begin

section \<open>Values exchanged with the sandbox server\<close>

text \<open>
  The cookbook script \<^verbatim>\<open>examples/cookbook.py\<close> drives a remote sandbox server through
  the \<^verbatim>\<open>py_arrakis\<close> SDK. Values decoded from JSON are the Python objects the script
  inspects with \<^verbatim>\<open>.get\<close>, \<^verbatim>\<open>[...]\<close>, \<^verbatim>\<open>in\<close> and \<^verbatim>\<open>for\<close>. Numbers are integers here;
  the script never computes with a number.
\<close>

datatype json =
    JNull
  | JBool bool
  | JNum int
  | JStr string
  | JArr "json list"
  | JObj "(string \<times> json) list"

text \<open>
  An HTTP response as the script sees it through \<^verbatim>\<open>requests\<close>: the status code and the
  body, which is \<open>None\<close> when it is not valid JSON (then \<^verbatim>\<open>response.json()\<close> raises).
\<close>

record response =
  status :: nat
  json_body :: "json option"

text \<open>
  The exceptions the script distinguishes. \<^verbatim>\<open>requests.HTTPError\<close> carries the response
  it was raised for (the attribute may be \<^verbatim>\<open>None\<close>); it is the specification's
  \<^verbatim>\<open>ApiError\<close>. \<open>ServiceUnavailable\<close> is the transport failure of an unreachable server.
  \<open>PyError c\<close> is any other subclass of \<^verbatim>\<open>Exception\<close>, named by its class.
  \<open>Interrupt c\<close> is a \<^verbatim>\<open>BaseException\<close> outside \<^verbatim>\<open>Exception\<close>
  (\<^verbatim>\<open>KeyboardInterrupt\<close>, \<^verbatim>\<open>SystemExit\<close>), which \<^verbatim>\<open>except Exception\<close> lets through.
\<close>

datatype exn =
    HTTPError "response option"
  | ServiceUnavailable
  | PyError string
  | Interrupt string

fun is_HTTPError :: "exn \<Rightarrow> bool" where
  "is_HTTPError (HTTPError _) = True"
| "is_HTTPError _ = False"

fun is_Exception :: "exn \<Rightarrow> bool" where
  "is_Exception (Interrupt _) = False"
| "is_Exception _ = True"

subsection \<open>Python operations on decoded JSON\<close>

definition json_of :: "response \<Rightarrow> exn + json" where
  \<comment> \<open>\<^verbatim>\<open>response.json()\<close>\<close>
  "json_of r = (case json_body r of None \<Rightarrow> Inl (PyError ''JSONDecodeError'') | Some j \<Rightarrow> Inr j)"

fun py_index :: "json \<Rightarrow> string \<Rightarrow> exn + json" where
  \<comment> \<open>\<^verbatim>\<open>obj[key]\<close> with a string key\<close>
  "py_index (JObj kvs) k = (case map_of kvs k of None \<Rightarrow> Inl (PyError ''KeyError'') | Some v \<Rightarrow> Inr v)"
| "py_index _ k = Inl (PyError ''TypeError'')"

fun py_get :: "json \<Rightarrow> string \<Rightarrow> json \<Rightarrow> exn + json" where
  \<comment> \<open>\<^verbatim>\<open>obj.get(key, default)\<close>; \<^verbatim>\<open>obj.get(key)\<close> has the default \<^verbatim>\<open>None\<close>\<close>
  "py_get (JObj kvs) k d = (case map_of kvs k of None \<Rightarrow> Inr d | Some v \<Rightarrow> Inr v)"
| "py_get _ k d = Inl (PyError ''AttributeError'')"

fun infix_of :: "string \<Rightarrow> string \<Rightarrow> bool" where
  "infix_of xs [] = (xs = [])"
| "infix_of xs (y # ys) = (take (length xs) (y # ys) = xs \<or> infix_of xs ys)"

fun py_contains :: "string \<Rightarrow> json \<Rightarrow> exn + bool" where
  \<comment> \<open>\<^verbatim>\<open>key in obj\<close> with a string key\<close>
  "py_contains k (JObj kvs) = Inr (k \<in> set (map fst kvs))"
| "py_contains k (JArr xs) = Inr (JStr k \<in> set xs)"
| "py_contains k (JStr s) = Inr (infix_of k s)"
| "py_contains k _ = Inl (PyError ''TypeError'')"

fun py_iter :: "json \<Rightarrow> exn + json list" where
  \<comment> \<open>the items \<^verbatim>\<open>for x in obj\<close> visits\<close>
  "py_iter (JArr xs) = Inr xs"
| "py_iter (JObj kvs) = Inr (map (\<lambda>kv. JStr (fst kv)) kvs)"
| "py_iter (JStr s) = Inr (map (\<lambda>c. JStr [c]) s)"
| "py_iter _ = Inl (PyError ''TypeError'')"

definition list_index :: "'a list \<Rightarrow> nat \<Rightarrow> exn + 'a" where
  \<comment> \<open>\<^verbatim>\<open>xs[i]\<close> on a list, for \<open>i \<ge> 0\<close>\<close>
  "list_index xs i = (if i < length xs then Inr (xs ! i) else Inl (PyError ''IndexError''))"

section \<open>Observable behaviour of a run\<close>

text \<open>
  The SDK objects: the manager holds the base URL only, a sandbox handle holds a name and
  its manager.
\<close>

record sandbox_manager =
  base_url :: string

record sandbox =
  name :: string
  manager :: sandbox_manager

definition SandboxManager :: "string \<Rightarrow> sandbox_manager" where
  "SandboxManager url = \<lparr>base_url = url\<rparr>"

definition Sandbox :: "sandbox_manager \<Rightarrow> string \<Rightarrow> sandbox" where
  "Sandbox m n = \<lparr>name = n, manager = m\<rparr>"

text \<open>
  The operations of the REST interface with their inputs. Paths and request bodies are
  defined by the server and appear nowhere in this repository, so a request is identified
  by its base URL, its HTTP verb, and the operation with the inputs it carries.
\<close>

datatype verb = GET | POST | DELETE

datatype op =
    ListAll
  | StartSandbox string
  | Restore string json
  | List string
  | RunCmd string string
  | Snapshot string string
  | Destroy string

text \<open>
  A line of output is the list of pieces of its f-string: literal text, \<^verbatim>\<open>str()\<close> of a
  decoded value, \<^verbatim>\<open>str()\<close> of an exception.
\<close>

datatype piece = Lit string | Val json | Exc exn

datatype event =
    Request string verb op
  | Print "piece list"
  | Sleep nat

fun text_of :: "piece list \<Rightarrow> string option" where
  \<comment> \<open>the text of a line all of whose interpolated values are strings\<close>
  "text_of [] = Some []"
| "text_of (Lit s # ps) = map_option (\<lambda>t. s @ t) (text_of ps)"
| "text_of (Val (JStr s) # ps) = map_option (\<lambda>t. s @ t) (text_of ps)"
| "text_of (_ # ps) = None"

text \<open>
  What the server does with a request is outside the repository: it does not answer, it
  answers 2xx with a JSON body, or it answers with a non-2xx response.
\<close>

datatype reply = Unreachable | Success json | Failure response

text \<open>
  A computation consumes the replies the server will give, in order, and yields its
  result (\<open>Inl\<close> an exception that escapes), the events it caused, and the replies left.
  A server that has no reply left is unreachable.
\<close>

type_synonym 'a prog = "reply list \<Rightarrow> (exn + 'a) \<times> event list \<times> reply list"

definition result :: "(exn + 'a) \<times> event list \<times> reply list \<Rightarrow> exn + 'a" where
  "result x = fst x"

definition events :: "(exn + 'a) \<times> event list \<times> reply list \<Rightarrow> event list" where
  "events x = fst (snd x)"

definition return :: "'a \<Rightarrow> 'a prog" where
  "return x rs = (Inr x, [], rs)"

definition raise :: "exn \<Rightarrow> 'a prog" where
  "raise e rs = (Inl e, [], rs)"

definition lift :: "exn + 'a \<Rightarrow> 'a prog" where
  "lift r rs = (r, [], rs)"

definition and_then :: "'a prog \<Rightarrow> ('a \<Rightarrow> 'b prog) \<Rightarrow> 'b prog" where
  "and_then m f rs =
     (case m rs of
        (Inl e, es, rs') \<Rightarrow> (Inl e, es, rs')
      | (Inr x, es, rs') \<Rightarrow> (case f x rs' of (r, es', rs'') \<Rightarrow> (r, es @ es', rs'')))"

definition seq :: "unit prog \<Rightarrow> 'b prog \<Rightarrow> 'b prog" where
  "seq m k = and_then m (\<lambda>_. k)"

definition print :: "piece list \<Rightarrow> unit prog" where
  "print ps rs = (Inr (), [Print ps], rs)"

definition sleep :: "nat \<Rightarrow> unit prog" where
  \<comment> \<open>\<^verbatim>\<open>time.sleep\<close>\<close>
  "sleep n rs = (Inr (), [Sleep n], rs)"

fun for_each :: "'a list \<Rightarrow> ('a \<Rightarrow> unit prog) \<Rightarrow> unit prog" where
  "for_each [] f = return ()"
| "for_each (x # xs) f = seq (f x) (for_each xs f)"

section \<open>The SDK\<close>

fun verb_of :: "op \<Rightarrow> verb" where
  "verb_of ListAll = GET"
| "verb_of (StartSandbox n) = POST"
| "verb_of (Restore n sid) = POST"
| "verb_of (List n) = GET"
| "verb_of (RunCmd n c) = POST"
| "verb_of (Snapshot n t) = POST"
| "verb_of (Destroy n) = DELETE"

definition next_reply :: "reply list \<Rightarrow> reply" where
  "next_reply rs = (case rs of [] \<Rightarrow> Unreachable | r # _ \<Rightarrow> r)"

fun outcome :: "reply \<Rightarrow> exn + json" where
  "outcome Unreachable = Inl ServiceUnavailable"
| "outcome (Success j) = Inr j"
| "outcome (Failure r) = Inl (HTTPError (Some r))"

definition call :: "sandbox_manager \<Rightarrow> op \<Rightarrow> json prog" where
  \<comment> \<open>Modelled from the spec: the request helper of \<^verbatim>\<open>py_arrakis\<close>, which is not among the
      sources. Every SDK method performs a single HTTP call and returns the parsed JSON
      or raises: \<^verbatim>\<open>ServiceUnavailable\<close> when the server is unreachable, \<^verbatim>\<open>ApiError\<close>
      (the script's \<^verbatim>\<open>requests.HTTPError\<close>, with the response) on a non-2xx response.\<close>
  "call m o' rs =
     (outcome (next_reply rs), [Request (base_url m) (verb_of o') o'], tl rs)"

definition list_all_vms :: "(json \<Rightarrow> string list) \<Rightarrow> sandbox_manager \<Rightarrow> sandbox list prog" where
  \<comment> \<open>Modelled from the spec: \<^verbatim>\<open>SandboxManager.list_all\<close>. GET; returns a sequence of
      handles, empty if no VM exists. \<open>vm_names\<close> reads the names of the existing VMs off
      the server's listing, whose layout the repository does not show.\<close>
  "list_all_vms vm_names m =
     and_then (call m ListAll) (\<lambda>j. return (map (Sandbox m) (vm_names j)))"

definition start_sandbox :: "sandbox_manager \<Rightarrow> string \<Rightarrow> sandbox prog" where
  \<comment> \<open>Modelled from the spec: \<^verbatim>\<open>SandboxManager.start_sandbox\<close>. POST; returns a handle
      bound to the name.\<close>
  "start_sandbox m n = and_then (call m (StartSandbox n)) (\<lambda>_. return (Sandbox m n))"

definition restore :: "sandbox_manager \<Rightarrow> string \<Rightarrow> json \<Rightarrow> sandbox prog" where
  \<comment> \<open>Modelled from the spec: \<^verbatim>\<open>SandboxManager.restore\<close>. POST; returns a handle, which
      names the VM it was asked for.\<close>
  "restore m n sid = and_then (call m (Restore n sid)) (\<lambda>_. return (Sandbox m n))"

definition list_vm :: "sandbox \<Rightarrow> json prog" where
  \<comment> \<open>Modelled from the spec: \<^verbatim>\<open>Sandbox.list\<close>. GET details for this name.\<close>
  "list_vm s = call (manager s) (List (name s))"

definition run_cmd :: "sandbox \<Rightarrow> string \<Rightarrow> json prog" where
  \<comment> \<open>Modelled from the spec: \<^verbatim>\<open>Sandbox.run_cmd\<close>. POST a command string.\<close>
  "run_cmd s c = call (manager s) (RunCmd (name s) c)"

definition snapshot :: "sandbox \<Rightarrow> string \<Rightarrow> json prog" where
  \<comment> \<open>Modelled from the spec: \<^verbatim>\<open>Sandbox.snapshot\<close>. POST; returns a snapshot identifier,
      the value the server answered.\<close>
  "snapshot s t = call (manager s) (Snapshot (name s) t)"

definition destroy :: "sandbox \<Rightarrow> json prog" where
  \<comment> \<open>Modelled from the spec: \<^verbatim>\<open>Sandbox.destroy\<close>. DELETE.\<close>
  "destroy s = call (manager s) (Destroy (name s))"

definition enter :: "sandbox \<Rightarrow> sandbox prog" where
  \<comment> \<open>Modelled from the spec: \<^verbatim>\<open>Sandbox.__enter__\<close>. Entering a scoped block returns
      the handle.\<close>
  "enter s = return s"

definition exit :: "sandbox \<Rightarrow> bool prog" where
  \<comment> \<open>Modelled from the spec: \<^verbatim>\<open>Sandbox.__exit__\<close>. Invokes \<^verbatim>\<open>destroy()\<close>; it does not
      swallow the exception of the block (the result \<open>False\<close>).\<close>
  "exit s = and_then (destroy s) (\<lambda>_. return False)"

definition with_block :: "sandbox \<Rightarrow> (sandbox \<Rightarrow> unit prog) \<Rightarrow> unit prog" where
  \<comment> \<open>Python's \<^verbatim>\<open>with mgr as v: body\<close>: \<^verbatim>\<open>__enter__\<close>, then the body, then \<^verbatim>\<open>__exit__\<close>
      whether the body returned or raised; an exception of the body is raised again
      unless \<^verbatim>\<open>__exit__\<close> returned true, and an exception of \<^verbatim>\<open>__exit__\<close> replaces it.\<close>
  "with_block mgr body =
     and_then (enter mgr) (\<lambda>v rs.
       case body v rs of
         (Inr _, es, rs') \<Rightarrow>
           (case exit mgr rs' of
              (Inl e', es', rs'') \<Rightarrow> (Inl e', es @ es', rs'')
            | (Inr _, es', rs'') \<Rightarrow> (Inr (), es @ es', rs''))
       | (Inl e, es, rs') \<Rightarrow>
           (case exit mgr rs' of
              (Inl e', es', rs'') \<Rightarrow> (Inl e', es @ es', rs'')
            | (Inr suppress, es', rs'') \<Rightarrow>
                (if suppress then Inr () else Inl e, es @ es', rs'')))"

section \<open>The cookbook script\<close>

definition BASE_URL :: string where
  "BASE_URL = ''http://localhost:7000''"

definition VM_START_WAIT_TIME_SECONDS :: nat where
  "VM_START_WAIT_TIME_SECONDS = 3"

definition quote :: char where
  \<comment> \<open>the single quote inside the shell commands\<close>
  "quote = CHR 0x27"

definition newline :: char where
  "newline = CHR 0x0A"

definition arrow :: string where
  \<comment> \<open>the rightwards arrow U+2192 of the port-forward line, as its UTF-8 bytes\<close>
  "arrow = [CHR 0xE2, CHR 0x86, CHR 0x92]"

definition basic_usage_example :: "(json \<Rightarrow> string list) \<Rightarrow> unit prog" where
  "basic_usage_example vm_names =
     seq (print [Lit ''=== Basic Usage Example ==='']) (
     let sandbox_manager = SandboxManager BASE_URL in
     seq (print [Lit ''Listing all VMs:'']) (
     and_then (list_all_vms vm_names sandbox_manager) (\<lambda>sandboxes.
     seq (for_each sandboxes (\<lambda>sandbox. print [Lit ''  - '', Lit (name sandbox)])) (
     if sandboxes = [] then
       seq (print [Lit ''Starting a new VM...'']) (
       and_then (start_sandbox sandbox_manager ''example-vm'') (\<lambda>new_sandbox.
       seq (print [Lit ''Started VM: '', Lit (name new_sandbox)]) (
       seq (print [Lit ''Waiting for VM to initialize...'']) (
       sleep VM_START_WAIT_TIME_SECONDS))))
     else
       and_then (lift (list_index sandboxes 0)) (\<lambda>new_sandbox. return ())))))"

definition print_port_forward :: "json \<Rightarrow> unit prog" where
  "print_port_forward pf =
     and_then (lift (py_index pf ''host_port'')) (\<lambda>host_port.
     and_then (lift (py_index pf ''guest_port'')) (\<lambda>guest_port.
     and_then (lift (py_index pf ''description'')) (\<lambda>description.
     print [Lit ''    Host:'', Val host_port, Lit ('' '' @ arrow @ '' Guest:''), Val guest_port,
            Lit '' ('', Val description, Lit '')''])))"

definition vm_management_example :: "unit prog" where
  "vm_management_example =
     seq (print [Lit ''=== VM Management Example ==='']) (
     let sandbox_manager = SandboxManager BASE_URL in
     seq (print [Lit ''Starting a new VM...'']) (
     and_then (start_sandbox sandbox_manager ''lifecycle-example'') (\<lambda>sandbox.
     seq (print [Lit ''Started VM: '', Lit (name sandbox)]) (
     seq (print [Lit ''Waiting for VM to initialize...'']) (
     seq (sleep VM_START_WAIT_TIME_SECONDS) (
     seq (print [Lit ''Getting VM details:'']) (
     and_then (list_vm sandbox) (\<lambda>details.
     and_then (lift (py_get details ''status'' JNull)) (\<lambda>st.
     seq (print [Lit ''  Status: '', Val st]) (
     and_then (lift (py_get details ''ip'' JNull)) (\<lambda>ip.
     seq (print [Lit ''  IP: '', Val ip]) (
     and_then (lift (py_get details ''tap_device_name'' JNull)) (\<lambda>tap.
     seq (print [Lit ''  Tap Device: '', Val tap]) (
     and_then (lift (py_contains ''port_forwards'' details)) (\<lambda>has_port_forwards.
     seq (if has_port_forwards then
            seq (print [Lit ''  Port Forwards:'']) (
            and_then (lift (py_index details ''port_forwards'')) (\<lambda>port_forwards.
            and_then (lift (py_iter port_forwards)) (\<lambda>pfs.
            for_each pfs print_port_forward)))
          else return ()) (
     seq (print [Lit ''Destroying the VM...'']) (
     and_then (destroy sandbox) (\<lambda>_.
     print [Lit ''VM destroyed'']))))))))))))))))))"

definition snapshot_example :: "unit prog" where
  "snapshot_example =
     seq (print [Lit ''=== Snapshot Example ==='']) (
     let sandbox_manager = SandboxManager BASE_URL;
         sandbox_name = ''snapshot-example'' in
     seq (print [Lit ''Starting a test VM for snapshots...'']) (
     and_then (start_sandbox sandbox_manager sandbox_name) (\<lambda>sandbox.
     seq (print [Lit ''Waiting for VM to initialize...'']) (
     seq (sleep VM_START_WAIT_TIME_SECONDS) (
     seq (print [Lit ''Modifying VM state before snapshot...'']) (
     and_then (run_cmd sandbox
        (''echo '' @ [quote] @ ''test data before snapshot'' @ [quote] @ '' > /tmp/testfile'')) (\<lambda>result1.
     and_then (lift (py_get result1 ''output'' (JStr []))) (\<lambda>out1.
     seq (print [Lit ''Command output: '', Val out1]) (
     seq (print [Lit ''Creating a snapshot...'']) (
     and_then (snapshot sandbox ''initial-state'') (\<lambda>snapshot_id.
     seq (print [Lit ''Created snapshot with ID: '', Val snapshot_id]) (
     seq (print [Lit ''Modifying VM state after snapshot...'']) (
     and_then (run_cmd sandbox
        (''echo '' @ [quote] @ ''test data after snapshot'' @ [quote] @ '' > /tmp/testfile'')) (\<lambda>result2.
     and_then (lift (py_get result2 ''output'' (JStr []))) (\<lambda>out2.
     seq (print [Lit ''Command output: '', Val out2]) (
     seq (print [Lit ''Verifying file was created...'']) (
     and_then (run_cmd sandbox ''cat /tmp/testfile'') (\<lambda>result3.
     and_then (lift (py_get result3 ''output'' (JStr []))) (\<lambda>out3.
     seq (print [Lit ''File content: '', Val out3]) (
     seq (print [Lit ''Destroying the sandbox...'']) (
     and_then (destroy sandbox) (\<lambda>_.
     seq (print [Lit ''Restoring from snapshot...'']) (
     and_then (restore sandbox_manager sandbox_name snapshot_id) (\<lambda>sandbox'.
     seq (print [Lit ''Snapshot restored'']) (
     seq (print [Lit ''Verifying file state after restore...'']) (
     and_then (run_cmd sandbox' ''cat /tmp/testfile'') (\<lambda>result4.
     and_then (lift (py_index result4 ''output'')) (\<lambda>out4.
     seq (if out4 = JStr (''test data before snapshot'' @ [newline]) then
            print [Lit ''File content is correct after restore (as expected)'']
          else
            print [Lit ''Unexpected result: '', Val result4]) (
     seq (print [Lit ''Cleaning up...'']) (
     and_then (destroy sandbox') (\<lambda>_.
     print [Lit ''VM destroyed''])))))))))))))))))))))))))))))))"

definition context_manager_example :: "unit prog" where
  "context_manager_example =
     seq (print [Lit ''=== Context Manager Example ==='']) (
     let sandbox_manager = SandboxManager BASE_URL in
     seq (print [Lit ''Starting a VM using context manager (will auto-destroy when done)...'']) (
     and_then (start_sandbox sandbox_manager ''auto-cleanup-example'') (\<lambda>mgr.
     seq (with_block mgr (\<lambda>sandbox.
            seq (print [Lit ''Started VM: '', Lit (name sandbox)]) (
            seq (print [Lit ''Waiting for VM to initialize...'']) (
            seq (sleep VM_START_WAIT_TIME_SECONDS) (
            seq (print [Lit ''Running commands in the VM...'']) (
            and_then (run_cmd sandbox
               (''echo '' @ [quote] @ ''Hello from sandbox context manager'' @ [quote])) (\<lambda>result'.
            and_then (lift (py_get result' ''output'' (JStr []))) (\<lambda>out.
            seq (print [Lit ''Command output: '', Val out]) (
            print [Lit ''Exiting context - VM will be destroyed automatically'']))))))))) (
     print [Lit ''VM has been destroyed automatically'']))))"

definition RED :: string where
  "RED = CHR 0x1B # ''[91m''"

definition RESET :: string where
  "RESET = CHR 0x1B # ''[0m''"

definition on_HTTPError :: "response option \<Rightarrow> unit prog" where
  \<comment> \<open>the suite of \<^verbatim>\<open>except requests.HTTPError as e\<close>; \<open>resp\<close> is \<^verbatim>\<open>e.response\<close>\<close>
  "on_HTTPError resp =
     (case resp of
        None \<Rightarrow> raise (PyError ''AttributeError'')
      | Some response \<Rightarrow>
          and_then (lift (json_of response)) (\<lambda>error_data.
          and_then (lift (py_index error_data ''error'')) (\<lambda>err.
          and_then (lift (py_index err ''message'')) (\<lambda>message.
          print [Lit RED, Lit ''API Error: '', Val message, Lit RESET]))))"

definition on_Exception :: "exn \<Rightarrow> unit prog" where
  \<comment> \<open>the suite of \<^verbatim>\<open>except Exception as e\<close>\<close>
  "on_Exception e =
     seq (print [Lit RED, Lit ''Error: '', Exc e, Lit RESET]) (
     print [Lit RED, Lit ''Make sure the Arrakis server is running and accessible at '',
            Lit BASE_URL, Lit RESET])"

fun except_clauses :: "exn \<Rightarrow> 'a option prog" where
  \<comment> \<open>the two \<^verbatim>\<open>except\<close> clauses of \<^verbatim>\<open>wrap_with_error_handling\<close>, in their order; an
      exception that matches neither is raised again. \<open>None\<close> is Python's \<^verbatim>\<open>None\<close>, the
      value of a call that falls off the end of an \<^verbatim>\<open>except\<close> suite.\<close>
  "except_clauses (HTTPError resp) = and_then (on_HTTPError resp) (\<lambda>_. return None)"
| "except_clauses (Interrupt c) = raise (Interrupt c)"
| "except_clauses e = and_then (on_Exception e) (\<lambda>_. return None)"

definition wrap_with_error_handling :: "'a prog \<Rightarrow> 'a option prog" where
  \<comment> \<open>\<open>Some v\<close> is the value \<open>v\<close> of \<^verbatim>\<open>return func()\<close>. An exception raised inside an
      \<^verbatim>\<open>except\<close> suite is not caught by the clause after it: it escapes.\<close>
  "wrap_with_error_handling func rs =
     (case func rs of
        (Inr v, es, rs') \<Rightarrow> (Inr (Some v), es, rs')
      | (Inl e, es, rs') \<Rightarrow>
          (case except_clauses e rs' of (r, es', rs'') \<Rightarrow> (r, es @ es', rs'')))"

definition main :: "(json \<Rightarrow> string list) \<Rightarrow> unit prog" where
  "main vm_names =
     seq (print [Lit ''Py-Arrakis SDK Cookbook'']) (
     seq (print [Lit ''======================'']) (
     seq (print [Lit ''This script demonstrates how to use the py-arrakis SDK to interact with Arrakis VMs.'']) (
     seq (print [Lit ''Make sure the Arrakis server is running at'', Lit '' '', Lit BASE_URL]) (
     seq (print [Lit ''Running Basic Usage Example...'']) (
     and_then (wrap_with_error_handling (basic_usage_example vm_names)) (\<lambda>_.
     seq (print [Lit ''Running VM Management Example...'']) (
     and_then (wrap_with_error_handling vm_management_example) (\<lambda>_.
     seq (print [Lit ''Running Snapshot Example...'']) (
     and_then (wrap_with_error_handling snapshot_example) (\<lambda>_.
     seq (print [Lit ''Running Context Manager Example...'']) (
     and_then (wrap_with_error_handling context_manager_example) (\<lambda>_.
     print [Lit ''All examples completed.'']))))))))))))"

section \<open>Auxiliary definitions\<close>

definition emit :: "event list \<Rightarrow> (exn + 'a) \<times> event list \<times> reply list \<Rightarrow> (exn + 'a) \<times> event list \<times> reply list" where
  \<comment> \<open>a run preceded by the events \<open>es0\<close>\<close>
  "emit es0 x = (fst x, es0 @ fst (snd x), snd (snd x))"

definition answer :: "reply \<Rightarrow> (json \<Rightarrow> 'a) \<Rightarrow> exn + 'a" where
  \<comment> \<open>what an SDK method that builds its value with \<open>f\<close> yields for a reply\<close>
  "answer r f =
     (case r of
        Unreachable \<Rightarrow> Inl ServiceUnavailable
      | Success j \<Rightarrow> Inr (f j)
      | Failure resp \<Rightarrow> Inl (HTTPError (Some resp)))"

fun is_destroy_of :: "sandbox \<Rightarrow> event \<Rightarrow> bool" where
  \<comment> \<open>a DELETE request for the VM the handle names\<close>
  "is_destroy_of s (Request u v (Destroy n)) = (n = name s)"
| "is_destroy_of s _ = False"

fun is_destroy :: "event \<Rightarrow> bool" where
  "is_destroy (Request u v (Destroy n)) = True"
| "is_destroy _ = False"

fun is_request :: "event \<Rightarrow> bool" where
  "is_request (Request u v o') = True"
| "is_request _ = False"

fun is_print :: "event \<Rightarrow> bool" where
  "is_print (Print ps) = True"
| "is_print _ = False"

definition actions :: "event list \<Rightarrow> event list" where
  \<comment> \<open>what a run does besides printing: its requests and sleeps, in order\<close>
  "actions es = filter (\<lambda>e. \<not> is_print e) es"

text \<open>
  A check on the events of a run: once a start request for
  the sandbox \<open>n\<close> is issued, no operation of a handle for \<open>n\<close> (\<open>target\<close>) comes before a
  sleep of \<open>VM_START_WAIT_TIME_SECONDS\<close>.
\<close>

fun target :: "op \<Rightarrow> string option" where
  "target (List n) = Some n"
| "target (RunCmd n c) = Some n"
| "target (Snapshot n t) = Some n"
| "target (Destroy n) = Some n"
| "target _ = None"

fun waited :: "string \<Rightarrow> event list \<Rightarrow> bool" where
  "waited n [] = True"
| "waited n (Sleep d # es) = (d = VM_START_WAIT_TIME_SECONDS \<or> waited n es)"
| "waited n (Request u v o' # es) = (target o' \<noteq> Some n \<and> waited n es)"
| "waited n (Print ps # es) = waited n es"

fun starts_wait :: "event list \<Rightarrow> bool" where
  "starts_wait [] = True"
| "starts_wait (Request u v (StartSandbox n) # es) = (waited n es \<and> starts_wait es)"
| "starts_wait (e # es) = starts_wait es"

text \<open>The requests and sleeps of a complete run of \<^verbatim>\<open>snapshot_example\<close>, for the snapshot
  identifier \<open>sid\<close> the server answered; and its requests up to the restore.\<close>

definition snapshot_actions :: "json \<Rightarrow> event list" where
  "snapshot_actions sid =
     [Request BASE_URL POST (StartSandbox ''snapshot-example''),
      Sleep VM_START_WAIT_TIME_SECONDS,
      Request BASE_URL POST (RunCmd ''snapshot-example''
        (''echo '' @ [quote] @ ''test data before snapshot'' @ [quote] @ '' > /tmp/testfile'')),
      Request BASE_URL POST (Snapshot ''snapshot-example'' ''initial-state''),
      Request BASE_URL POST (RunCmd ''snapshot-example''
        (''echo '' @ [quote] @ ''test data after snapshot'' @ [quote] @ '' > /tmp/testfile'')),
      Request BASE_URL POST (RunCmd ''snapshot-example'' ''cat /tmp/testfile''),
      Request BASE_URL DELETE (Destroy ''snapshot-example''),
      Request BASE_URL POST (Restore ''snapshot-example'' sid),
      Request BASE_URL POST (RunCmd ''snapshot-example'' ''cat /tmp/testfile''),
      Request BASE_URL DELETE (Destroy ''snapshot-example'')]"

definition snapshot_requests :: "json \<Rightarrow> event list" where
  "snapshot_requests sid =
     [Request BASE_URL POST (StartSandbox ''snapshot-example''),
      Request BASE_URL POST (RunCmd ''snapshot-example''
        (''echo '' @ [quote] @ ''test data before snapshot'' @ [quote] @ '' > /tmp/testfile'')),
      Request BASE_URL POST (Snapshot ''snapshot-example'' ''initial-state''),
      Request BASE_URL POST (RunCmd ''snapshot-example''
        (''echo '' @ [quote] @ ''test data after snapshot'' @ [quote] @ '' > /tmp/testfile'')),
      Request BASE_URL POST (RunCmd ''snapshot-example'' ''cat /tmp/testfile''),
      Request BASE_URL DELETE (Destroy ''snapshot-example''),
      Request BASE_URL POST (Restore ''snapshot-example'' sid)]"

text \<open>A layout of the server's listing, for the runs below: a JSON array of VM names.\<close>

fun name_of :: "json \<Rightarrow> string list" where
  "name_of (JStr s) = [s]"
| "name_of _ = []"

fun array_names :: "json \<Rightarrow> string list" where
  "array_names (JArr xs) = concat (map name_of xs)"
| "array_names _ = []"

text \<open>Three answers of a server: a refusal that follows the error convention, a gateway
  error page that is not JSON, and a JSON error body without an \<^verbatim>\<open>error\<close> field.\<close>

definition vm_exists :: response where
  "vm_exists = \<lparr>status = 409,
     json_body = Some (JObj [(''error'', JObj [(''message'', JStr ''VM already exists'')])])\<rparr>"

definition bad_gateway :: response where
  "bad_gateway = \<lparr>status = 502, json_body = None\<rparr>"

definition not_found :: response where
  "not_found = \<lparr>status = 404, json_body = Some (JObj [(''detail'', JStr ''Not Found'')])\<rparr>"

definition full_session :: "reply list" where
  \<comment> \<open>a server that answers every request of the snapshot example\<close>
  "full_session =
     [Success JNull,
      Success (JObj [(''output'', JStr [])]),
      Success (JStr ''snap-1''),
      Success (JObj [(''output'', JStr [])]),
      Success (JObj [(''output'', JStr ''test data after snapshot'')]),
      Success JNull,
      Success JNull,
      Success (JObj [(''output'', JStr (''test data before snapshot'' @ [newline]))]),
      Success JNull]"

section \<open>Running a computation step by step\<close>

lemma emit_simps [simp]:
  "emit es0 (r, es, rs) = (r, es0 @ es, rs)"
  "emit es0 (emit es1 x) = emit (es0 @ es1) x"
  "result (emit es0 x) = result x"
  "events (emit es0 x) = es0 @ events x"
  "snd (snd (emit es0 x)) = snd (snd x)"
  by (simp_all add: emit_def result_def events_def)

lemma result_events_simps [simp]:
  "result (r, es, rs) = r"
  "events (r, es, rs) = es"
  by (simp_all add: result_def events_def)

lemma seq_print [simp]: "seq (print ps) k rs = emit [Print ps] (k rs)"
  by (simp add: seq_def and_then_def print_def emit_def split: prod.splits)

lemma seq_sleep [simp]: "seq (sleep n) k rs = emit [Sleep n] (k rs)"
  by (simp add: seq_def and_then_def sleep_def emit_def split: prod.splits)

lemma and_then_return [simp]: "and_then (return x) f rs = f x rs"
  by (simp add: and_then_def return_def split: prod.splits)

lemma and_then_lift [simp]:
  "and_then (lift r) f rs = (case r of Inl e \<Rightarrow> (Inl e, [], rs) | Inr x \<Rightarrow> f x rs)"
  by (simp add: and_then_def lift_def split: prod.splits sum.splits)

lemma and_then_print [simp]:
  "and_then (print ps) f rs = emit [Print ps] (f () rs)"
  by (simp add: and_then_def print_def emit_def split: prod.splits)

lemma and_then_assoc: "and_then (and_then m f) g = and_then m (\<lambda>x. and_then (f x) g)"
  by (rule ext) (simp add: and_then_def split: prod.splits sum.splits)

lemma and_then_raised: "m rs = (Inl e, es, rs') \<Longrightarrow> and_then m f rs = (Inl e, es, rs')"
  by (simp add: and_then_def)

lemma and_then_returned: "m rs = (Inr x, es, rs') \<Longrightarrow> and_then m f rs = emit es (f x rs')"
  by (simp add: and_then_def emit_def split: prod.splits)

lemma and_then_call [simp]:
  "and_then (call m o') f rs =
     (case outcome (next_reply rs) of
        Inl e \<Rightarrow> (Inl e, [Request (base_url m) (verb_of o') o'], tl rs)
      | Inr j \<Rightarrow> emit [Request (base_url m) (verb_of o') o'] (f j (tl rs)))"
  by (simp add: and_then_def call_def emit_def split: prod.splits sum.splits)

lemma and_then_start_sandbox [simp]:
  "and_then (start_sandbox m n) f rs =
     (case outcome (next_reply rs) of
        Inl e \<Rightarrow> (Inl e, [Request (base_url m) POST (StartSandbox n)], tl rs)
      | Inr j \<Rightarrow> emit [Request (base_url m) POST (StartSandbox n)] (f (Sandbox m n) (tl rs)))"
  by (simp add: start_sandbox_def and_then_assoc split: sum.splits)

lemma and_then_restore [simp]:
  "and_then (restore m n sid) f rs =
     (case outcome (next_reply rs) of
        Inl e \<Rightarrow> (Inl e, [Request (base_url m) POST (Restore n sid)], tl rs)
      | Inr j \<Rightarrow> emit [Request (base_url m) POST (Restore n sid)] (f (Sandbox m n) (tl rs)))"
  by (simp add: restore_def and_then_assoc split: sum.splits)

lemma and_then_list_all_vms [simp]:
  "and_then (list_all_vms vm_names m) f rs =
     (case outcome (next_reply rs) of
        Inl e \<Rightarrow> (Inl e, [Request (base_url m) GET ListAll], tl rs)
      | Inr j \<Rightarrow> emit [Request (base_url m) GET ListAll] (f (map (Sandbox m) (vm_names j)) (tl rs)))"
  by (simp add: list_all_vms_def and_then_assoc split: sum.splits)

lemma and_then_list_vm [simp]:
  "and_then (list_vm s) f rs =
     (case outcome (next_reply rs) of
        Inl e \<Rightarrow> (Inl e, [Request (base_url (manager s)) GET (List (name s))], tl rs)
      | Inr j \<Rightarrow> emit [Request (base_url (manager s)) GET (List (name s))] (f j (tl rs)))"
  by (simp add: list_vm_def split: sum.splits)

lemma and_then_run_cmd [simp]:
  "and_then (run_cmd s c) f rs =
     (case outcome (next_reply rs) of
        Inl e \<Rightarrow> (Inl e, [Request (base_url (manager s)) POST (RunCmd (name s) c)], tl rs)
      | Inr j \<Rightarrow> emit [Request (base_url (manager s)) POST (RunCmd (name s) c)] (f j (tl rs)))"
  by (simp add: run_cmd_def split: sum.splits)

lemma and_then_snapshot [simp]:
  "and_then (snapshot s t) f rs =
     (case outcome (next_reply rs) of
        Inl e \<Rightarrow> (Inl e, [Request (base_url (manager s)) POST (Snapshot (name s) t)], tl rs)
      | Inr j \<Rightarrow> emit [Request (base_url (manager s)) POST (Snapshot (name s) t)] (f j (tl rs)))"
  by (simp add: snapshot_def split: sum.splits)

lemma and_then_destroy [simp]:
  "and_then (destroy s) f rs =
     (case outcome (next_reply rs) of
        Inl e \<Rightarrow> (Inl e, [Request (base_url (manager s)) DELETE (Destroy (name s))], tl rs)
      | Inr j \<Rightarrow> emit [Request (base_url (manager s)) DELETE (Destroy (name s))] (f j (tl rs)))"
  by (simp add: destroy_def split: sum.splits)

lemma handle_fields [simp]:
  "name (Sandbox m n) = n" "manager (Sandbox m n) = m" "base_url (SandboxManager u) = u"
  by (simp_all add: Sandbox_def SandboxManager_def)

lemma next_reply_simps [simp]:
  "next_reply [] = Unreachable" "next_reply (r # rs) = r"
  by (simp_all add: next_reply_def)

subsection \<open>The SDK methods and the scoped block\<close>

lemma call_run:
  "call m o' rs = (answer (next_reply rs) (\<lambda>j. j), [Request (base_url m) (verb_of o') o'], tl rs)"
  by (cases "next_reply rs") (simp_all add: call_def answer_def)

lemma and_then_call_return:
  "and_then (call m o') (\<lambda>j. return (f j)) rs =
     (answer (next_reply rs) f, [Request (base_url m) (verb_of o') o'], tl rs)"
  by (cases "next_reply rs") (simp_all add: answer_def return_def)

lemma list_all_vms_run:
  "list_all_vms vm_names m rs =
     (answer (next_reply rs) (\<lambda>j. map (Sandbox m) (vm_names j)),
      [Request (base_url m) GET ListAll], tl rs)"
  unfolding list_all_vms_def by (simp only: and_then_call_return verb_of.simps)

lemma start_sandbox_run:
  "start_sandbox m n rs =
     (answer (next_reply rs) (\<lambda>j. Sandbox m n), [Request (base_url m) POST (StartSandbox n)], tl rs)"
  unfolding start_sandbox_def by (simp only: and_then_call_return verb_of.simps)

lemma restore_run:
  "restore m n sid rs =
     (answer (next_reply rs) (\<lambda>j. Sandbox m n), [Request (base_url m) POST (Restore n sid)], tl rs)"
  unfolding restore_def by (simp only: and_then_call_return verb_of.simps)

lemma exit_run:
  "exit s rs = (case outcome (next_reply rs) of Inl e \<Rightarrow> Inl e | Inr _ \<Rightarrow> Inr False,
                [Request (base_url (manager s)) DELETE (Destroy (name s))], tl rs)"
  by (simp add: exit_def return_def split: sum.splits)

lemma with_block_run:
  "with_block s block rs =
     (case block s rs of (r, es, rs') \<Rightarrow>
        (case outcome (next_reply rs') of
           Inl e' \<Rightarrow> Inl e'
         | Inr _ \<Rightarrow> r,
         es @ [Request (base_url (manager s)) DELETE (Destroy (name s))], tl rs'))"
  unfolding with_block_def enter_def and_then_return
  by (cases "block s rs"; cases "fst (block s rs)";
      cases "outcome (next_reply (snd (snd (block s rs))))")
     (simp_all add: exit_run)

lemma with_block_events:
  "events (with_block s block rs) =
     events (block s rs) @ [Request (base_url (manager s)) DELETE (Destroy (name s))]"
  by (cases "block s rs") (simp add: with_block_run)

subsection \<open>The error handler\<close>

lemma wrap_returns:
  "func rs = (Inr v, es, rs') \<Longrightarrow> wrap_with_error_handling func rs = (Inr (Some v), es, rs')"
  by (simp add: wrap_with_error_handling_def)

lemma wrap_raises:
  "func rs = (Inl e, es, rs') \<Longrightarrow> wrap_with_error_handling func rs = emit es (except_clauses e rs')"
  by (simp add: wrap_with_error_handling_def emit_def split: prod.splits)

lemma on_Exception_run [simp]:
  "and_then (on_Exception e) f rs =
     emit [Print [Lit RED, Lit ''Error: '', Exc e, Lit RESET],
           Print [Lit RED, Lit ''Make sure the Arrakis server is running and accessible at '',
                  Lit BASE_URL, Lit RESET]] (f () rs)"
  by (simp add: on_Exception_def and_then_def seq_def print_def emit_def split: prod.splits)

lemma except_clauses_result:
  "result (except_clauses e rs) = Inr r \<Longrightarrow> r = None"
  by (cases e)
    (auto simp: on_HTTPError_def raise_def return_def and_then_def print_def lift_def result_def
      split: option.splits sum.splits prod.splits)

lemma except_clauses_other:
  "is_Exception e \<Longrightarrow> \<not> is_HTTPError e \<Longrightarrow>
   except_clauses e rs =
     (Inr None, [Print [Lit RED, Lit ''Error: '', Exc e, Lit RESET],
         Print [Lit RED, Lit ''Make sure the Arrakis server is running and accessible at '',
                Lit BASE_URL, Lit RESET]], rs)"
  by (cases e) (simp_all add: return_def)

lemma on_HTTPError_structured:
  assumes "json_body r = Some j" "py_index j ''error'' = Inr err" "py_index err ''message'' = Inr m"
  shows "except_clauses (HTTPError (Some r)) rs =
           (Inr None, [Print [Lit RED, Lit ''API Error: '', Val m, Lit RESET]], rs)"
  using assms by (simp add: on_HTTPError_def json_of_def and_then_def lift_def print_def return_def)

lemma gateway_body_unreadable:
  "except_clauses (HTTPError (Some bad_gateway)) rs = (Inl (PyError ''JSONDecodeError''), [], rs)"
  by (simp add: on_HTTPError_def json_of_def bad_gateway_def and_then_assoc)

subsection \<open>Three short runs of the examples\<close>

lemma lifecycle_refused:
  "vm_management_example [Failure vm_exists] =
    (Inl (HTTPError (Some vm_exists)),
     [Print [Lit ''=== VM Management Example ===''], Print [Lit ''Starting a new VM...''],
      Request BASE_URL POST (StartSandbox ''lifecycle-example'')], [])"
  by (simp add: vm_management_example_def Let_def)

lemma nothing_listens:
  "vm_management_example [] =
    (Inl ServiceUnavailable,
     [Print [Lit ''=== VM Management Example ===''], Print [Lit ''Starting a new VM...''],
      Request BASE_URL POST (StartSandbox ''lifecycle-example'')], [])"
  by (simp add: vm_management_example_def Let_def)

lemma gateway_refuses_listing:
  "basic_usage_example vm_names [Failure bad_gateway] =
    (Inl (HTTPError (Some bad_gateway)),
     [Print [Lit ''=== Basic Usage Example ===''], Print [Lit ''Listing all VMs:''],
      Request BASE_URL GET ListAll], [])"
  by (simp add: basic_usage_example_def Let_def)

subsection \<open>The basic example\<close>

lemma for_each_print:
  "for_each xs (\<lambda>x. print (f x)) rs = (Inr (), map (\<lambda>x. Print (f x)) xs, rs)"
  by (induction xs) (simp_all add: return_def)

lemma seq_for_each_print [simp]:
  "seq (for_each xs (\<lambda>x. print (f x))) k rs = emit (map (\<lambda>x. Print (f x)) xs) (k rs)"
  by (simp add: seq_def and_then_returned [OF for_each_print])

lemma basic_run:
  "basic_usage_example vm_names rs =
     emit [Print [Lit ''=== Basic Usage Example ===''], Print [Lit ''Listing all VMs:''],
           Request BASE_URL GET ListAll]
       (case outcome (next_reply rs) of
          Inl e \<Rightarrow> (Inl e, [], tl rs)
        | Inr j \<Rightarrow>
            emit (map (\<lambda>n. Print [Lit ''  - '', Lit n]) (vm_names j))
              (if vm_names j = [] then
                 emit [Print [Lit ''Starting a new VM...''],
                       Request BASE_URL POST (StartSandbox ''example-vm'')]
                   (case outcome (next_reply (tl rs)) of
                      Inl e \<Rightarrow> (Inl e, [], tl (tl rs))
                    | Inr _ \<Rightarrow>
                        (Inr (), [Print [Lit ''Started VM: '', Lit ''example-vm''],
                                  Print [Lit ''Waiting for VM to initialize...''],
                                  Sleep VM_START_WAIT_TIME_SECONDS], tl (tl rs)))
               else (Inr (), [], tl rs)))"
  by (simp add: basic_usage_example_def Let_def list_index_def sleep_def return_def comp_def
      split: sum.splits)

subsection \<open>What the examples do besides printing\<close>

lemma actions_simps [simp]:
  "actions [] = []"
  "actions (Print ps # es) = actions es"
  "actions (Request u v o' # es) = Request u v o' # actions es"
  "actions (Sleep d # es) = Sleep d # actions es"
  "actions (es @ es') = actions es @ actions es'"
  "actions (map Print pss) = []"
  "actions (map (\<lambda>x. Print (f x)) xs) = []"
  by (simp_all add: actions_def comp_def)

lemma print_port_forward_prints:
  "\<exists>r ps. print_port_forward pf rs = (r, map Print ps, rs)"
proof (cases "py_index pf ''host_port''")
  case (Inl e) then show ?thesis by (auto simp: print_port_forward_def intro: exI [of _ "[]"])
next
  case hp: (Inr a)
  show ?thesis
  proof (cases "py_index pf ''guest_port''")
    case (Inl e) with hp show ?thesis by (auto simp: print_port_forward_def intro: exI [of _ "[]"])
  next
    case gp: (Inr b)
    show ?thesis
    proof (cases "py_index pf ''description''")
      case (Inl e) with hp gp show ?thesis
        by (auto simp: print_port_forward_def intro: exI [of _ "[]"])
    next
      case (Inr c)
      with hp gp have "print_port_forward pf rs =
        (Inr (), map Print [[Lit ''    Host:'', Val a, Lit ('' '' @ arrow @ '' Guest:''), Val b,
            Lit '' ('', Val c, Lit '')'']], rs)"
        by (simp add: print_port_forward_def print_def)
      then show ?thesis by blast
    qed
  qed
qed

lemma for_each_prints:
  "\<exists>r ps. for_each pfs print_port_forward rs = (r, map Print ps, rs)"
proof (induction pfs)
  case Nil
  have "for_each [] print_port_forward rs = (Inr (), map Print [], rs)" by (simp add: return_def)
  then show ?case by blast
next
  case (Cons pf pfs)
  obtain r ps where a: "print_port_forward pf rs = (r, map Print ps, rs)"
    using print_port_forward_prints by blast
  obtain r' ps' where b: "for_each pfs print_port_forward rs = (r', map Print ps', rs)"
    using Cons.IH by blast
  show ?case
  proof (cases r)
    case (Inl e)
    with a have "for_each (pf # pfs) print_port_forward rs = (Inl e, map Print ps, rs)"
      by (simp add: seq_def and_then_def)
    then show ?thesis by blast
  next
    case (Inr u)
    with a b have "for_each (pf # pfs) print_port_forward rs = (r', map Print (ps @ ps'), rs)"
      by (simp add: seq_def and_then_def)
    then show ?thesis by blast
  qed
qed


lemma seq_prints:
  assumes "m rs = (r, map Print ps, rs)"
  shows "actions (events (seq m k rs)) = (case r of Inl e \<Rightarrow> [] | Inr _ \<Rightarrow> actions (events (k rs)))"
  using assms by (cases r) (simp_all add: seq_def and_then_def split: prod.splits)

lemma port_forwards_prints:
  "\<exists>r ps. (if has then
            seq (print [Lit ''  Port Forwards:'']) (
            and_then (lift (py_index details ''port_forwards'')) (\<lambda>port_forwards.
            and_then (lift (py_iter port_forwards)) (\<lambda>pfs.
            for_each pfs print_port_forward)))
          else return ()) rs = (r, map Print ps, rs)"
proof (cases has)
  case False
  then have "(if has then
            seq (print [Lit ''  Port Forwards:'']) (
            and_then (lift (py_index details ''port_forwards'')) (\<lambda>port_forwards.
            and_then (lift (py_iter port_forwards)) (\<lambda>pfs.
            for_each pfs print_port_forward)))
          else return ()) rs = (Inr (), map Print [], rs)"
    by (simp add: return_def)
  then show ?thesis by blast
next
  case True
  show ?thesis
  proof (cases "py_index details ''port_forwards''")
    case (Inl e)
    with True have "(if has then
            seq (print [Lit ''  Port Forwards:'']) (
            and_then (lift (py_index details ''port_forwards'')) (\<lambda>port_forwards.
            and_then (lift (py_iter port_forwards)) (\<lambda>pfs.
            for_each pfs print_port_forward)))
          else return ()) rs = (Inl e, map Print [[Lit ''  Port Forwards:'']], rs)"
      by simp
    then show ?thesis by blast
  next
    case pf: (Inr port_forwards)
    show ?thesis
    proof (cases "py_iter port_forwards")
      case (Inl e)
      with True pf have "(if has then
            seq (print [Lit ''  Port Forwards:'']) (
            and_then (lift (py_index details ''port_forwards'')) (\<lambda>port_forwards.
            and_then (lift (py_iter port_forwards)) (\<lambda>pfs.
            for_each pfs print_port_forward)))
          else return ()) rs = (Inl e, map Print [[Lit ''  Port Forwards:'']], rs)"
        by simp
      then show ?thesis by blast
    next
      case (Inr pfs)
      obtain r ps where "for_each pfs print_port_forward rs = (r, map Print ps, rs)"
        using for_each_prints by blast
      with True pf Inr have "(if has then
            seq (print [Lit ''  Port Forwards:'']) (
            and_then (lift (py_index details ''port_forwards'')) (\<lambda>port_forwards.
            and_then (lift (py_iter port_forwards)) (\<lambda>pfs.
            for_each pfs print_port_forward)))
          else return ()) rs = (r, map Print ([Lit ''  Port Forwards:''] # ps), rs)"
        by simp
      then show ?thesis by blast
    qed
  qed
qed

lemma vm_management_destroys:
  "prefix (actions (events (seq (if has then
            seq (print [Lit ''  Port Forwards:'']) (
            and_then (lift (py_index details ''port_forwards'')) (\<lambda>port_forwards.
            and_then (lift (py_iter port_forwards)) (\<lambda>pfs.
            for_each pfs print_port_forward)))
          else return ()) (
     seq (print [Lit ''Destroying the VM...'']) (
     and_then (destroy sandbox) (\<lambda>_.
     print [Lit ''VM destroyed'']))) rs)))
     [Request (base_url (manager sandbox)) DELETE (Destroy (name sandbox))]"
proof -
  obtain r ps where "(if has then
            seq (print [Lit ''  Port Forwards:'']) (
            and_then (lift (py_index details ''port_forwards'')) (\<lambda>port_forwards.
            and_then (lift (py_iter port_forwards)) (\<lambda>pfs.
            for_each pfs print_port_forward)))
          else return ()) rs = (r, map Print ps, rs)"
    using port_forwards_prints by blast
  then show ?thesis
    by (simp add: seq_prints print_def split: sum.splits)
qed

lemma vm_management_actions:
  "prefix (actions (events (vm_management_example rs)))
     [Request BASE_URL POST (StartSandbox ''lifecycle-example''),
      Sleep VM_START_WAIT_TIME_SECONDS,
      Request BASE_URL GET (List ''lifecycle-example''),
      Request BASE_URL DELETE (Destroy ''lifecycle-example'')]"
  using vm_management_destroys [where sandbox = "Sandbox (SandboxManager BASE_URL) ''lifecycle-example''"]
  by (simp add: vm_management_example_def Let_def split: sum.splits)

lemma outcome_Inr [simp]: "(outcome r = Inr j) = (r = Success j)"
  by (cases r) auto

lemma snapshot_example_actions:
  "prefix (actions (events (snapshot_example rs)))
     (snapshot_actions (case next_reply (tl (tl rs)) of Success j \<Rightarrow> j | _ \<Rightarrow> JNull))"
  by (simp add: snapshot_example_def snapshot_actions_def Let_def print_def
      split: sum.splits if_splits)

lemma snapshot_example_restores:
  "Request u v (Restore n sid) \<in> set (events (snapshot_example rs)) \<Longrightarrow>
   next_reply (tl (tl rs)) = Success sid"
  by (simp add: snapshot_example_def Let_def print_def split: sum.splits if_splits)


lemma seq_with_block:
  "seq (with_block s block) k rs =
     (case block s rs of (r, es, rs') \<Rightarrow>
        (case outcome (next_reply rs') of
           Inl e' \<Rightarrow> (Inl e', es @ [Request (base_url (manager s)) DELETE (Destroy (name s))], tl rs')
         | Inr _ \<Rightarrow>
            (case r of
               Inl e \<Rightarrow> (Inl e, es @ [Request (base_url (manager s)) DELETE (Destroy (name s))], tl rs')
             | Inr _ \<Rightarrow> emit (es @ [Request (base_url (manager s)) DELETE (Destroy (name s))]) (k (tl rs')))))"
  by (simp add: seq_def and_then_def with_block_run split: prod.splits sum.splits)

lemma context_manager_actions:
  "prefix (actions (events (context_manager_example rs)))
     [Request BASE_URL POST (StartSandbox ''auto-cleanup-example''),
      Sleep VM_START_WAIT_TIME_SECONDS,
      Request BASE_URL POST (RunCmd ''auto-cleanup-example''
        (''echo '' @ [quote] @ ''Hello from sandbox context manager'' @ [quote])),
      Request BASE_URL DELETE (Destroy ''auto-cleanup-example'')]"
  by (simp add: context_manager_example_def Let_def seq_with_block print_def
      split: sum.splits prod.splits)

lemma context_manager_destroys:
  "next_reply rs = Success j \<Longrightarrow>
   length (filter (is_destroy_of (Sandbox (SandboxManager BASE_URL) ''auto-cleanup-example''))
     (events (context_manager_example rs))) = 1"
  by (simp add: context_manager_example_def Let_def seq_with_block print_def
      split: sum.splits prod.splits)

lemma basic_usage_actions:
  "prefix (actions (events (basic_usage_example vm_names rs)))
     [Request BASE_URL GET ListAll,
      Request BASE_URL POST (StartSandbox ''example-vm''),
      Sleep VM_START_WAIT_TIME_SECONDS]"
  by (simp add: basic_run split: sum.splits)

subsection \<open>The waiting check is closed under prefixes\<close>

lemma waited_actions: "waited n (actions es) = waited n es"
  by (induction n es rule: waited.induct) simp_all

lemma starts_wait_actions: "starts_wait (actions es) = starts_wait es"
  by (induction es rule: starts_wait.induct) (simp_all add: waited_actions)

lemma waited_prefix: "prefix xs ys \<Longrightarrow> waited n ys \<Longrightarrow> waited n xs"
proof (induction ys arbitrary: xs)
  case Nil then show ?case by simp
next
  case (Cons y ys)
  show ?case
  proof (cases xs)
    case Nil then show ?thesis by simp
  next
    case xs: (Cons x xs')
    with Cons.prems have eq: "x = y" and p: "prefix xs' ys" by simp_all
    show ?thesis
    proof (cases y)
      case (Request u v o')
      with Cons.prems(2) have t: "target o' \<noteq> Some n" and "waited n ys" by simp_all
      with p Cons.IH have "waited n xs'" by blast
      with xs eq Request t show ?thesis by simp
    next
      case (Print ps)
      with Cons.prems(2) have "waited n ys" by simp
      with p Cons.IH have "waited n xs'" by blast
      with xs eq Print show ?thesis by simp
    next
      case (Sleep d)
      show ?thesis
      proof (cases "d = VM_START_WAIT_TIME_SECONDS")
        case True
        with xs eq Sleep show ?thesis by simp
      next
        case False
        with Cons.prems(2) Sleep have "waited n ys" by simp
        with p Cons.IH have "waited n xs'" by blast
        with xs eq Sleep show ?thesis by simp
      qed
    qed
  qed
qed

lemma starts_wait_prefix: "prefix xs ys \<Longrightarrow> starts_wait ys \<Longrightarrow> starts_wait xs"
proof (induction ys arbitrary: xs)
  case Nil then show ?case by simp
next
  case (Cons y ys)
  show ?case
  proof (cases xs)
    case Nil then show ?thesis by simp
  next
    case (Cons x xs')
    with Cons.prems have eq: "x = y" and p: "prefix xs' ys" by simp_all
    show ?thesis
    proof (cases "\<exists>u v n. y = Request u v (StartSandbox n)")
      case True
      then obtain u v n where y: "y = Request u v (StartSandbox n)" by blast
      with Cons.prems(2) have "waited n ys" "starts_wait ys" by simp_all
      with p Cons.IH have "waited n xs'" "starts_wait xs'" by (auto intro: waited_prefix)
      with Cons eq y show ?thesis by simp
    next
      case False
      have r: "starts_wait (y # zs) = starts_wait zs" for zs
      proof (cases y)
        case (Request u v o')
        with False show ?thesis by (cases o') simp_all
      qed simp_all
      with Cons.prems(2) have "starts_wait ys" by simp
      with p Cons.IH have "starts_wait xs'" by blast
      with Cons eq r show ?thesis by simp
    qed
  qed
qed

lemma starts_wait_of_actions:
  "prefix (actions es) ys \<Longrightarrow> starts_wait ys \<Longrightarrow> starts_wait es"
  using starts_wait_prefix starts_wait_actions by blast

lemma starts_wait_rejects:
  "\<not> starts_wait [Request u POST (StartSandbox n), Request u POST (RunCmd n c)]"
  by simp

lemma requests_of_actions: "filter is_request (actions es) = filter is_request es"
  by (induction es) (auto simp add: actions_def elim: is_request.elims)

lemma snapshot_example_requests:
  "prefix (filter is_request (events (snapshot_example rs)))
     (snapshot_requests (case next_reply (tl (tl rs)) of Success j \<Rightarrow> j | _ \<Rightarrow> JNull) @
      [Request BASE_URL POST (RunCmd ''snapshot-example'' ''cat /tmp/testfile''),
       Request BASE_URL DELETE (Destroy ''snapshot-example'')])"
  using filter_mono_prefix [OF snapshot_example_actions, of is_request rs]
  by (simp add: requests_of_actions snapshot_actions_def snapshot_requests_def)

lemma restore_in_prefix:
  assumes "prefix xs (snapshot_requests sid @
      [Request BASE_URL POST (RunCmd ''snapshot-example'' ''cat /tmp/testfile''),
       Request BASE_URL DELETE (Destroy ''snapshot-example'')])"
    and "Request u v (Restore n sid') \<in> set xs"
  shows "u = BASE_URL \<and> v = POST \<and> n = ''snapshot-example'' \<and> prefix (snapshot_requests sid) xs"
  using assms unfolding snapshot_requests_def
  by (auto simp add: prefix_Cons)

subsection \<open>A response without the error field; the sleep after a successful start\<close>

lemma lifecycle_not_found:
  "vm_management_example [Failure not_found] =
    (Inl (HTTPError (Some not_found)),
     [Print [Lit ''=== VM Management Example ===''], Print [Lit ''Starting a new VM...''],
      Request BASE_URL POST (StartSandbox ''lifecycle-example'')], [])"
  by (simp add: vm_management_example_def Let_def)

lemma not_found_has_no_error_field:
  "except_clauses (HTTPError (Some not_found)) rs = (Inl (PyError ''KeyError''), [], rs)"
  by (simp add: on_HTTPError_def json_of_def not_found_def and_then_assoc)

lemma vm_management_sleeps:
  "next_reply rs = Success j \<Longrightarrow>
   prefix [Request BASE_URL POST (StartSandbox ''lifecycle-example''),
           Sleep VM_START_WAIT_TIME_SECONDS]
     (actions (events (vm_management_example rs)))"
  by (simp add: vm_management_example_def Let_def)

lemma snapshot_example_sleeps:
  "next_reply rs = Success j \<Longrightarrow>
   prefix [Request BASE_URL POST (StartSandbox ''snapshot-example''),
           Sleep VM_START_WAIT_TIME_SECONDS]
     (actions (events (snapshot_example rs)))"
  by (simp add: snapshot_example_def Let_def)

lemma context_manager_sleeps:
  "next_reply rs = Success j \<Longrightarrow>
   prefix [Request BASE_URL POST (StartSandbox ''auto-cleanup-example''),
           Sleep VM_START_WAIT_TIME_SECONDS]
     (actions (events (context_manager_example rs)))"
  by (simp add: context_manager_example_def Let_def seq_with_block print_def
      split: sum.splits prod.splits)

lemma basic_usage_sleeps:
  "next_reply rs = Success j \<Longrightarrow> vm_names j = [] \<Longrightarrow> next_reply (tl rs) = Success j' \<Longrightarrow>
   actions (events (basic_usage_example vm_names rs)) =
     [Request BASE_URL GET ListAll,
      Request BASE_URL POST (StartSandbox ''example-vm''),
      Sleep VM_START_WAIT_TIME_SECONDS]"
  by (simp add: basic_run)

section \<open>The top-level error handler\<close>

text \<open>
  Claim C9. For every function \<open>func\<close>, \<^verbatim>\<open>wrap_with_error_handling(func)\<close> returns the value of
  \<^verbatim>\<open>func()\<close> when \<^verbatim>\<open>func()\<close> raises no exception, and returns \<^verbatim>\<open>None\<close> whenever it handles
  an exception raised by \<^verbatim>\<open>func()\<close>; it never returns any other value. In the first
  case the events and the replies left are those of \<open>func\<close>; in the second, whatever the
  wrapper returns (when its handler does not itself raise) is \<^verbatim>\<open>None\<close>.
\<close>

theorem wrap_value:
  "(\<forall>v es rs'. func rs = (Inr v, es, rs') \<longrightarrow>
       wrap_with_error_handling func rs = (Inr (Some v), es, rs')) \<and>
   (\<forall>e es rs' r. func rs = (Inl e, es, rs') \<longrightarrow>
       result (wrap_with_error_handling func rs) = Inr r \<longrightarrow> r = None)"
  by (auto simp: wrap_returns wrap_raises dest: except_clauses_result)

theorem wrap_value_witness:
  "wrap_with_error_handling (return (5::nat)) [] = (Inr (Some 5), [], []) \<and>
   result (wrap_with_error_handling (raise ServiceUnavailable :: nat prog) []) = Inr None"
  using wrap_value [of "return (5::nat)" "[]"]
    wrap_value [of "raise ServiceUnavailable :: nat prog" "[]"]
  by (simp add: return_def raise_def wrap_with_error_handling_def)

text \<open>
  Claim C2, as stated, fails: an API-level error whose response is JSON without an
  \<^verbatim>\<open>error\<close> field (here a 404 with the body \<^verbatim>\<open>{"detail": "Not Found"}\<close>) makes
  \<^verbatim>\<open>error_data['error']\<close> raise \<^verbatim>\<open>KeyError\<close> inside the \<^verbatim>\<open>except requests.HTTPError\<close> suite.
  The handler prints no message: the events of the wrapped call are those of the example
  itself, and the \<^verbatim>\<open>KeyError\<close> escapes.
\<close>

theorem api_error_without_message_counterexample:
  "vm_management_example [Failure not_found] =
     (Inl (HTTPError (Some not_found)),
      [Print [Lit ''=== VM Management Example ===''], Print [Lit ''Starting a new VM...''],
       Request BASE_URL POST (StartSandbox ''lifecycle-example'')], []) \<and>
   wrap_with_error_handling vm_management_example [Failure not_found] =
     (Inl (PyError ''KeyError''),
      [Print [Lit ''=== VM Management Example ===''], Print [Lit ''Starting a new VM...''],
       Request BASE_URL POST (StartSandbox ''lifecycle-example'')], [])"
  by (simp add: wrap_raises lifecycle_not_found not_found_has_no_error_field
      del: except_clauses.simps)

text \<open>
  Claim C2, amended. When a wrapped function raises an API-level error whose attached
  response has a JSON body with an \<^verbatim>\<open>error.message\<close> field, the handler prints one line,
  made of the colour code, the text \<^verbatim>\<open>API Error: \<close>, the server's message and the reset
  code, and returns \<^verbatim>\<open>None\<close>. The message is interpolated as the server sent it: for a
  string message the line is exactly \<open>RED @ ''API Error: '' @ s @ RESET\<close>.
\<close>

theorem api_error_message_printed:
  assumes "func rs = (Inl (HTTPError (Some r)), es, rs')"
    and "json_body r = Some j"
    and "py_index j ''error'' = Inr err"
    and "py_index err ''message'' = Inr m"
  shows "wrap_with_error_handling func rs =
           (Inr None, es @ [Print [Lit RED, Lit ''API Error: '', Val m, Lit RESET]], rs') \<and>
         (\<forall>s. m = JStr s \<longrightarrow>
            text_of [Lit RED, Lit ''API Error: '', Val m, Lit RESET] =
              Some (RED @ ''API Error: '' @ s @ RESET))"
  using assms by (simp add: wrap_raises on_HTTPError_structured del: except_clauses.simps)

theorem api_error_message_printed_witness:
  "wrap_with_error_handling vm_management_example [Failure vm_exists] =
     (Inr None,
      [Print [Lit ''=== VM Management Example ===''], Print [Lit ''Starting a new VM...''],
       Request BASE_URL POST (StartSandbox ''lifecycle-example''),
       Print [Lit RED, Lit ''API Error: '', Val (JStr ''VM already exists''), Lit RESET]], []) \<and>
   text_of [Lit RED, Lit ''API Error: '', Val (JStr ''VM already exists''), Lit RESET] =
     Some (RED @ ''API Error: VM already exists'' @ RESET)"
  using api_error_message_printed [of vm_management_example "[Failure vm_exists]" vm_exists _ _
      "JObj [(''error'', JObj [(''message'', JStr ''VM already exists'')])]"
      "JObj [(''message'', JStr ''VM already exists'')]" "JStr ''VM already exists''"]
  by (simp add: lifecycle_refused) (simp add: vm_exists_def)

text \<open>
  Claim C3, as stated, fails: an API-level failure whose response body is not JSON (here
  a 502 page of a gateway in front of the server) makes \<^verbatim>\<open>response.json()\<close> raise inside
  the \<^verbatim>\<open>except requests.HTTPError\<close> suite. The clause after it does not catch that
  exception, so \<^verbatim>\<open>wrap_with_error_handling\<close> raises and the script stops at the first
  example.
\<close>

theorem wrap_reraises_counterexample:
  "result (basic_usage_example array_names [Failure bad_gateway]) = Inl (HTTPError (Some bad_gateway)) \<and>
   result (wrap_with_error_handling (basic_usage_example array_names) [Failure bad_gateway]) =
     Inl (PyError ''JSONDecodeError'') \<and>
   result (main array_names [Failure bad_gateway]) = Inl (PyError ''JSONDecodeError'')"
proof -
  have w: "wrap_with_error_handling (basic_usage_example array_names) [Failure bad_gateway] =
    (Inl (PyError ''JSONDecodeError''),
     [Print [Lit ''=== Basic Usage Example ===''], Print [Lit ''Listing all VMs:''],
      Request BASE_URL GET ListAll], [])"
    by (simp add: wrap_raises gateway_refuses_listing gateway_body_unreadable
        del: except_clauses.simps)
  show ?thesis
    by (simp add: gateway_refuses_listing w main_def
        and_then_raised [where m = "wrap_with_error_handling (basic_usage_example array_names)", OF w])
qed

text \<open>
  Claim C3, amended. For every function \<open>func\<close> and every exception \<open>e\<close> raised by
  \<^verbatim>\<open>func()\<close>: if \<open>e\<close> is a transport failure (or any other \<^verbatim>\<open>Exception\<close> that is not an
  \<^verbatim>\<open>HTTPError\<close>), the wrapper prints the two red diagnostic lines and returns \<^verbatim>\<open>None\<close>; if
  \<open>e\<close> is an API-level failure whose attached response has a JSON body with an
  \<^verbatim>\<open>error.message\<close> field, the wrapper prints the red \<^verbatim>\<open>API Error\<close> line and returns
  \<^verbatim>\<open>None\<close>. In both cases nothing is raised again.
\<close>

theorem wrap_catches:
  assumes "func rs = (Inl e, es, rs')"
  shows "(is_Exception e \<and> \<not> is_HTTPError e \<longrightarrow>
            wrap_with_error_handling func rs =
              (Inr None,
               es @ [Print [Lit RED, Lit ''Error: '', Exc e, Lit RESET],
                     Print [Lit RED, Lit ''Make sure the Arrakis server is running and accessible at '',
                            Lit BASE_URL, Lit RESET]], rs')) \<and>
         (\<forall>r j err m. e = HTTPError (Some r) \<and> json_body r = Some j \<and>
            py_index j ''error'' = Inr err \<and> py_index err ''message'' = Inr m \<longrightarrow>
            wrap_with_error_handling func rs =
              (Inr None, es @ [Print [Lit RED, Lit ''API Error: '', Val m, Lit RESET]], rs'))"
  using assms
  by (auto simp add: wrap_raises except_clauses_other on_HTTPError_structured
      simp del: except_clauses.simps)

theorem wrap_catches_witness:
  "wrap_with_error_handling vm_management_example [] =
     (Inr None,
      [Print [Lit ''=== VM Management Example ===''], Print [Lit ''Starting a new VM...''],
       Request BASE_URL POST (StartSandbox ''lifecycle-example''),
       Print [Lit RED, Lit ''Error: '', Exc ServiceUnavailable, Lit RESET],
       Print [Lit RED, Lit ''Make sure the Arrakis server is running and accessible at '',
              Lit BASE_URL, Lit RESET]], []) \<and>
   wrap_with_error_handling vm_management_example [Failure vm_exists] =
     (Inr None,
      [Print [Lit ''=== VM Management Example ===''], Print [Lit ''Starting a new VM...''],
       Request BASE_URL POST (StartSandbox ''lifecycle-example''),
       Print [Lit RED, Lit ''API Error: '', Val (JStr ''VM already exists''), Lit RESET]], [])"
  using wrap_catches [where func = vm_management_example, OF nothing_listens]
    wrap_catches [where func = vm_management_example, OF lifecycle_refused]
  by (simp add: vm_exists_def)

section \<open>The SDK as the specification describes it\<close>

text \<open>
  Claim C6. Every wrapper method (\<^verbatim>\<open>list_all\<close>, \<^verbatim>\<open>start_sandbox\<close>, \<^verbatim>\<open>restore\<close>, \<^verbatim>\<open>list\<close>,
  \<^verbatim>\<open>run_cmd\<close>, \<^verbatim>\<open>snapshot\<close>, \<^verbatim>\<open>destroy\<close>), on every input, issues exactly one HTTP request,
  with the verb of the specification, to the manager's base URL, for the operation and
  the inputs it was called with, and consumes exactly one reply; it returns the value
  built from the parsed JSON of a 2xx reply, raises \<^verbatim>\<open>HTTPError\<close> with the response on a
  non-2xx reply, and raises \<^verbatim>\<open>ServiceUnavailable\<close> when the server does not answer.
\<close>

theorem sdk_single_request:
  "list_all_vms vm_names m rs =
     (answer (next_reply rs) (\<lambda>j. map (Sandbox m) (vm_names j)),
      [Request (base_url m) GET ListAll], tl rs) \<and>
   start_sandbox m n rs =
     (answer (next_reply rs) (\<lambda>j. Sandbox m n),
      [Request (base_url m) POST (StartSandbox n)], tl rs) \<and>
   restore m n sid rs =
     (answer (next_reply rs) (\<lambda>j. Sandbox m n),
      [Request (base_url m) POST (Restore n sid)], tl rs) \<and>
   list_vm s rs =
     (answer (next_reply rs) (\<lambda>j. j),
      [Request (base_url (manager s)) GET (List (name s))], tl rs) \<and>
   run_cmd s c rs =
     (answer (next_reply rs) (\<lambda>j. j),
      [Request (base_url (manager s)) POST (RunCmd (name s) c)], tl rs) \<and>
   snapshot s t rs =
     (answer (next_reply rs) (\<lambda>j. j),
      [Request (base_url (manager s)) POST (Snapshot (name s) t)], tl rs) \<and>
   destroy s rs =
     (answer (next_reply rs) (\<lambda>j. j),
      [Request (base_url (manager s)) DELETE (Destroy (name s))], tl rs)"
  unfolding list_vm_def run_cmd_def snapshot_def destroy_def
  by (simp only: list_all_vms_run start_sandbox_run restore_run call_run verb_of.simps simp_thms)

text \<open>
  Claim C4. \<^verbatim>\<open>list_all()\<close> fails with \<^verbatim>\<open>ServiceUnavailable\<close> when the server is unreachable
  and with \<^verbatim>\<open>ApiError\<close> (the \<^verbatim>\<open>HTTPError\<close> the script catches), carrying the server's
  response and so its message, on a non-2xx response; and these are the only errors a
  caller of \<^verbatim>\<open>list_all()\<close> observes.
\<close>

theorem list_all_failures:
  "(next_reply rs = Unreachable \<longrightarrow>
      result (list_all_vms vm_names m rs) = Inl ServiceUnavailable) \<and>
   (\<forall>r. next_reply rs = Failure r \<longrightarrow>
      result (list_all_vms vm_names m rs) = Inl (HTTPError (Some r))) \<and>
   (\<forall>e. result (list_all_vms vm_names m rs) = Inl e \<longrightarrow>
      (e = ServiceUnavailable \<and> next_reply rs = Unreachable) \<or>
      (\<exists>r. e = HTTPError (Some r) \<and> next_reply rs = Failure r))"
  by (cases "next_reply rs") (auto simp add: list_all_vms_run answer_def)

theorem list_all_failures_witness:
  "result (list_all_vms array_names (SandboxManager BASE_URL) []) = Inl ServiceUnavailable \<and>
   result (list_all_vms array_names (SandboxManager BASE_URL) [Failure vm_exists]) =
     Inl (HTTPError (Some vm_exists))"
proof -
  have a: "next_reply [] = Unreachable"
    and b: "next_reply [Failure vm_exists] = Failure vm_exists"
    by simp_all
  from a list_all_failures [of "[]" array_names "SandboxManager BASE_URL"]
  have "result (list_all_vms array_names (SandboxManager BASE_URL) []) = Inl ServiceUnavailable"
    by blast
  moreover from b list_all_failures [of "[Failure vm_exists]" array_names "SandboxManager BASE_URL"]
  have "result (list_all_vms array_names (SandboxManager BASE_URL) [Failure vm_exists]) =
     Inl (HTTPError (Some vm_exists))"
    by blast
  ultimately show ?thesis by blast
qed


section \<open>The basic usage example\<close>

text \<open>
  Claim C5. \<^verbatim>\<open>list_all()\<close> returns one handle per VM of the server's listing, so the
  sequence is empty exactly when no VM exists. In \<^verbatim>\<open>basic_usage_example\<close> the branch that
  indexes \<^verbatim>\<open>sandboxes[0]\<close> runs only for a non-empty sequence, so the function never
  raises \<^verbatim>\<open>IndexError\<close>; and the request that starts \<^verbatim>\<open>example-vm\<close> is issued exactly when
  the listing succeeded and was empty.
\<close>

theorem first_sandbox_exists:
  "(\<forall>hs. result (list_all_vms vm_names m rs) = Inr hs \<longrightarrow>
      (\<exists>j. next_reply rs = Success j \<and> hs = map (Sandbox m) (vm_names j) \<and>
           (hs = [] \<longleftrightarrow> vm_names j = []))) \<and>
   result (basic_usage_example vm_names rs) \<noteq> Inl (PyError ''IndexError'') \<and>
   (Request BASE_URL POST (StartSandbox ''example-vm'') \<in> set (events (basic_usage_example vm_names rs))
      \<longleftrightarrow> (\<exists>j. next_reply rs = Success j \<and> vm_names j = []))"
proof (intro conjI)
  show "\<forall>hs. result (list_all_vms vm_names m rs) = Inr hs \<longrightarrow>
      (\<exists>j. next_reply rs = Success j \<and> hs = map (Sandbox m) (vm_names j) \<and>
           (hs = [] \<longleftrightarrow> vm_names j = []))"
    by (cases "next_reply rs") (auto simp add: list_all_vms_run answer_def)
  show "result (basic_usage_example vm_names rs) \<noteq> Inl (PyError ''IndexError'')"
    by (cases "next_reply rs"; cases "next_reply (tl rs)") (simp_all add: basic_run)
  show "Request BASE_URL POST (StartSandbox ''example-vm'') \<in> set (events (basic_usage_example vm_names rs))
      \<longleftrightarrow> (\<exists>j. next_reply rs = Success j \<and> vm_names j = [])"
    by (cases "next_reply rs"; cases "next_reply (tl rs)") (auto simp add: basic_run)
qed

theorem first_sandbox_exists_witness:
  "result (list_all_vms array_names (SandboxManager BASE_URL) [Success (JArr [JStr ''a''])]) =
     Inr [Sandbox (SandboxManager BASE_URL) ''a''] \<and>
   Request BASE_URL POST (StartSandbox ''example-vm'') \<in>
     set (events (basic_usage_example array_names [Success (JArr [])]))"
proof -
  have "\<exists>hs. result (list_all_vms array_names (SandboxManager BASE_URL) [Success (JArr [JStr ''a''])]) =
     Inr hs"
    by (simp add: list_all_vms_run answer_def)
  with first_sandbox_exists [of array_names "SandboxManager BASE_URL" "[Success (JArr [JStr ''a''])]"]
  have "result (list_all_vms array_names (SandboxManager BASE_URL) [Success (JArr [JStr ''a''])]) =
     Inr [Sandbox (SandboxManager BASE_URL) ''a'']"
    by auto
  moreover have "\<exists>j. next_reply [Success (JArr [])] = Success j \<and> array_names j = []"
    by simp
  with first_sandbox_exists [of array_names "SandboxManager BASE_URL" "[Success (JArr [])]"]
  have "Request BASE_URL POST (StartSandbox ''example-vm'') \<in>
     set (events (basic_usage_example array_names [Success (JArr [])]))"
    by blast
  ultimately show ?thesis by blast
qed

text \<open>
  Claim C10. \<^verbatim>\<open>basic_usage_example\<close> never invokes \<^verbatim>\<open>destroy\<close>: no run of it issues a
  destroy request for any sandbox. When the listing is empty and the start succeeds, the
  function returns normally and its requests are the listing and the start of
  \<^verbatim>\<open>example-vm\<close>, which nothing in the function removes afterwards.
\<close>

theorem basic_usage_never_destroys:
  "filter is_destroy (events (basic_usage_example vm_names rs)) = [] \<and>
   (\<forall>j j'. next_reply rs = Success j \<and> vm_names j = [] \<and> next_reply (tl rs) = Success j' \<longrightarrow>
      result (basic_usage_example vm_names rs) = Inr () \<and>
      filter is_request (events (basic_usage_example vm_names rs)) =
        [Request BASE_URL GET ListAll, Request BASE_URL POST (StartSandbox ''example-vm'')])"
  by (cases "next_reply rs"; cases "next_reply (tl rs)")
     (simp_all add: basic_run comp_def VM_START_WAIT_TIME_SECONDS_def)

theorem basic_usage_never_destroys_witness:
  "result (basic_usage_example array_names [Success (JArr []), Success JNull]) = Inr () \<and>
   filter is_request (events (basic_usage_example array_names [Success (JArr []), Success JNull])) =
     [Request BASE_URL GET ListAll, Request BASE_URL POST (StartSandbox ''example-vm'')] \<and>
   filter is_destroy (events (basic_usage_example array_names [Success (JArr []), Success JNull])) = []"
  using basic_usage_never_destroys [of array_names "[Success (JArr []), Success JNull]"]
  by simp

section \<open>Waiting after a start, and restoring a snapshot\<close>

text \<open>
  Claim C7. In every example function, whenever a sandbox is started via
  \<^verbatim>\<open>start_sandbox\<close>, a sleep of \<^verbatim>\<open>VM_START_WAIT_TIME_SECONDS\<close> = 3 seconds is executed
  before any later operation (\<^verbatim>\<open>list\<close>, \<^verbatim>\<open>run_cmd\<close>, \<^verbatim>\<open>snapshot\<close>, \<^verbatim>\<open>destroy\<close>) on that
  sandbox (the check \<open>starts_wait\<close>). The duration is the constant, whatever the server
  answered, and the sleep is the first thing an example does after the start besides
  printing: the requests and sleeps of a run are an initial part of a fixed sequence in
  which the sleep directly follows the start, so no request is made to find out whether
  the VM is ready. And the sleep is executed: in every run in which \<^verbatim>\<open>start_sandbox\<close>
  returned a handle, the start request is followed by the sleep of 3 seconds before
  anything else but printing happens.
\<close>

theorem sleep_before_use:
  "starts_wait (events (basic_usage_example vm_names rs)) \<and>
   starts_wait (events (vm_management_example rs)) \<and>
   starts_wait (events (snapshot_example rs)) \<and>
   starts_wait (events (context_manager_example rs)) \<and>
   VM_START_WAIT_TIME_SECONDS = 3 \<and>
   prefix (actions (events (basic_usage_example vm_names rs)))
     [Request BASE_URL GET ListAll,
      Request BASE_URL POST (StartSandbox ''example-vm''),
      Sleep VM_START_WAIT_TIME_SECONDS] \<and>
   prefix (actions (events (vm_management_example rs)))
     [Request BASE_URL POST (StartSandbox ''lifecycle-example''),
      Sleep VM_START_WAIT_TIME_SECONDS,
      Request BASE_URL GET (List ''lifecycle-example''),
      Request BASE_URL DELETE (Destroy ''lifecycle-example'')] \<and>
   prefix (actions (events (snapshot_example rs)))
     (snapshot_actions (case next_reply (tl (tl rs)) of Success j \<Rightarrow> j | _ \<Rightarrow> JNull)) \<and>
   prefix (actions (events (context_manager_example rs)))
     [Request BASE_URL POST (StartSandbox ''auto-cleanup-example''),
      Sleep VM_START_WAIT_TIME_SECONDS,
      Request BASE_URL POST (RunCmd ''auto-cleanup-example''
        (''echo '' @ [quote] @ ''Hello from sandbox context manager'' @ [quote])),
      Request BASE_URL DELETE (Destroy ''auto-cleanup-example'')] \<and>
   (\<forall>j j'. next_reply rs = Success j \<and> vm_names j = [] \<and> next_reply (tl rs) = Success j' \<longrightarrow>
      actions (events (basic_usage_example vm_names rs)) =
        [Request BASE_URL GET ListAll,
         Request BASE_URL POST (StartSandbox ''example-vm''),
         Sleep VM_START_WAIT_TIME_SECONDS]) \<and>
   (\<forall>j. next_reply rs = Success j \<longrightarrow>
      prefix [Request BASE_URL POST (StartSandbox ''lifecycle-example''),
              Sleep VM_START_WAIT_TIME_SECONDS]
        (actions (events (vm_management_example rs))) \<and>
      prefix [Request BASE_URL POST (StartSandbox ''snapshot-example''),
              Sleep VM_START_WAIT_TIME_SECONDS]
        (actions (events (snapshot_example rs))) \<and>
      prefix [Request BASE_URL POST (StartSandbox ''auto-cleanup-example''),
              Sleep VM_START_WAIT_TIME_SECONDS]
        (actions (events (context_manager_example rs))))"
proof (intro conjI allI impI)
  show "starts_wait (events (basic_usage_example vm_names rs))"
    by (rule starts_wait_of_actions [OF basic_usage_actions]) simp
  show "starts_wait (events (vm_management_example rs))"
    by (rule starts_wait_of_actions [OF vm_management_actions]) simp
  show "starts_wait (events (snapshot_example rs))"
    by (rule starts_wait_of_actions [OF snapshot_example_actions]) (simp add: snapshot_actions_def)
  show "starts_wait (events (context_manager_example rs))"
    by (rule starts_wait_of_actions [OF context_manager_actions]) simp
  show "VM_START_WAIT_TIME_SECONDS = 3"
    by (simp add: VM_START_WAIT_TIME_SECONDS_def)
  show "prefix (actions (events (basic_usage_example vm_names rs)))
     [Request BASE_URL GET ListAll,
      Request BASE_URL POST (StartSandbox ''example-vm''),
      Sleep VM_START_WAIT_TIME_SECONDS]"
    by (rule basic_usage_actions)
  show "prefix (actions (events (vm_management_example rs)))
     [Request BASE_URL POST (StartSandbox ''lifecycle-example''),
      Sleep VM_START_WAIT_TIME_SECONDS,
      Request BASE_URL GET (List ''lifecycle-example''),
      Request BASE_URL DELETE (Destroy ''lifecycle-example'')]"
    by (rule vm_management_actions)
  show "prefix (actions (events (snapshot_example rs)))
     (snapshot_actions (case next_reply (tl (tl rs)) of Success j \<Rightarrow> j | _ \<Rightarrow> JNull))"
    by (rule snapshot_example_actions)
  show "prefix (actions (events (context_manager_example rs)))
     [Request BASE_URL POST (StartSandbox ''auto-cleanup-example''),
      Sleep VM_START_WAIT_TIME_SECONDS,
      Request BASE_URL POST (RunCmd ''auto-cleanup-example''
        (''echo '' @ [quote] @ ''Hello from sandbox context manager'' @ [quote])),
      Request BASE_URL DELETE (Destroy ''auto-cleanup-example'')]"
    by (rule context_manager_actions)
next
  fix j j'
  assume "next_reply rs = Success j \<and> vm_names j = [] \<and> next_reply (tl rs) = Success j'"
  then show "actions (events (basic_usage_example vm_names rs)) =
        [Request BASE_URL GET ListAll,
         Request BASE_URL POST (StartSandbox ''example-vm''),
         Sleep VM_START_WAIT_TIME_SECONDS]"
    by (auto intro: basic_usage_sleeps)
next
  fix j
  assume a: "next_reply rs = Success j"
  show "prefix [Request BASE_URL POST (StartSandbox ''lifecycle-example''),
              Sleep VM_START_WAIT_TIME_SECONDS]
        (actions (events (vm_management_example rs)))"
    using a by (rule vm_management_sleeps)
  show "prefix [Request BASE_URL POST (StartSandbox ''snapshot-example''),
              Sleep VM_START_WAIT_TIME_SECONDS]
        (actions (events (snapshot_example rs)))"
    using a by (rule snapshot_example_sleeps)
  show "prefix [Request BASE_URL POST (StartSandbox ''auto-cleanup-example''),
              Sleep VM_START_WAIT_TIME_SECONDS]
        (actions (events (context_manager_example rs)))"
    using a by (rule context_manager_sleeps)
qed

theorem sleep_before_use_witness:
  "actions (events (basic_usage_example array_names [Success (JArr []), Success JNull])) =
     [Request BASE_URL GET ListAll,
      Request BASE_URL POST (StartSandbox ''example-vm''),
      Sleep 3] \<and>
   prefix [Request BASE_URL POST (StartSandbox ''lifecycle-example''), Sleep 3]
     (actions (events (vm_management_example [Success JNull, Success JNull]))) \<and>
   prefix [Request BASE_URL POST (StartSandbox ''snapshot-example''), Sleep 3]
     (actions (events (snapshot_example [Success JNull, Success JNull]))) \<and>
   prefix [Request BASE_URL POST (StartSandbox ''auto-cleanup-example''), Sleep 3]
     (actions (events (context_manager_example [Success JNull, Success JNull])))"
proof -
  have a: "next_reply [Success (JArr []), Success JNull] = Success (JArr []) \<and>
        array_names (JArr []) = [] \<and>
        next_reply (tl [Success (JArr []), Success JNull]) = Success JNull"
    and b: "next_reply [Success JNull, Success JNull] = Success JNull"
    by simp_all
  note t1 = sleep_before_use [of array_names "[Success (JArr []), Success JNull]"]
  note t2 = sleep_before_use [of array_names "[Success JNull, Success JNull]"]
  from t1 a have "actions (events (basic_usage_example array_names [Success (JArr []), Success JNull])) =
     [Request BASE_URL GET ListAll,
      Request BASE_URL POST (StartSandbox ''example-vm''),
      Sleep VM_START_WAIT_TIME_SECONDS]"
    by blast
  moreover from t2 b have
    "prefix [Request BASE_URL POST (StartSandbox ''lifecycle-example''), Sleep VM_START_WAIT_TIME_SECONDS]
       (actions (events (vm_management_example [Success JNull, Success JNull])))"
    "prefix [Request BASE_URL POST (StartSandbox ''snapshot-example''), Sleep VM_START_WAIT_TIME_SECONDS]
       (actions (events (snapshot_example [Success JNull, Success JNull])))"
    "prefix [Request BASE_URL POST (StartSandbox ''auto-cleanup-example''), Sleep VM_START_WAIT_TIME_SECONDS]
       (actions (events (context_manager_example [Success JNull, Success JNull])))"
    by blast+
  moreover from t1 have "VM_START_WAIT_TIME_SECONDS = 3" by blast
  ultimately show ?thesis by simp
qed

text \<open>
  Claim C8. In \<^verbatim>\<open>snapshot_example\<close>, whenever a restore request is issued, it goes to
  the base URL for the name \<^verbatim>\<open>snapshot-example\<close> used at the start and carries, unchanged,
  the identifier \<open>sid\<close> that the server answered to the third request, the call
  \<^verbatim>\<open>sandbox.snapshot("initial-state")\<close>. The requests before it are the start, a command,
  the snapshot, two commands and the destroy of the original sandbox, in this order, so
  the restore comes only after that destroy. The requests after it, through the handle
  that \<^verbatim>\<open>restore\<close> returned, are for the same name.
\<close>

theorem restore_after_destroy:
  assumes "Request u v (Restore n sid) \<in> set (events (snapshot_example rs))"
  shows "u = BASE_URL \<and> v = POST \<and> n = ''snapshot-example'' \<and>
         next_reply (tl (tl rs)) = Success sid \<and>
         prefix (snapshot_requests sid) (filter is_request (events (snapshot_example rs))) \<and>
         prefix (filter is_request (events (snapshot_example rs)))
           (snapshot_requests sid @
            [Request BASE_URL POST (RunCmd ''snapshot-example'' ''cat /tmp/testfile''),
             Request BASE_URL DELETE (Destroy ''snapshot-example'')])"
proof -
  have sid: "next_reply (tl (tl rs)) = Success sid"
    using assms by (rule snapshot_example_restores)
  have m: "Request u v (Restore n sid) \<in> set (filter is_request (events (snapshot_example rs)))"
    using assms by simp
  have p: "prefix (filter is_request (events (snapshot_example rs)))
     (snapshot_requests sid @
      [Request BASE_URL POST (RunCmd ''snapshot-example'' ''cat /tmp/testfile''),
       Request BASE_URL DELETE (Destroy ''snapshot-example'')])"
    using snapshot_example_requests [of rs] sid by simp
  from p m have "u = BASE_URL \<and> v = POST \<and> n = ''snapshot-example'' \<and>
      prefix (snapshot_requests sid) (filter is_request (events (snapshot_example rs)))"
    by (rule restore_in_prefix)
  with sid p show ?thesis by blast
qed

theorem restore_after_destroy_witness:
  "Request BASE_URL POST (Restore ''snapshot-example'' (JStr ''snap-1'')) \<in>
     set (events (snapshot_example full_session)) \<and>
   next_reply (tl (tl full_session)) = Success (JStr ''snap-1'') \<and>
   prefix (snapshot_requests (JStr ''snap-1''))
     (filter is_request (events (snapshot_example full_session)))"
proof -
  have m: "Request BASE_URL POST (Restore ''snapshot-example'' (JStr ''snap-1'')) \<in>
     set (events (snapshot_example full_session))"
    by (simp add: snapshot_example_def full_session_def Let_def print_def)
  from restore_after_destroy [OF m] m show ?thesis by blast
qed

section \<open>Scoped use of a sandbox\<close>

text \<open>
  Claim C1. For every body run inside a scoped block on a sandbox handle, whatever the
  body does and whether it returns or raises, the block invokes \<^verbatim>\<open>destroy()\<close> on the
  handle exactly once, after the body: the events of the block are the events of the
  body followed by the one DELETE request, so the block adds one to the number of destroy
  requests for that handle. In \<^verbatim>\<open>context_manager_example\<close>, whose body issues no destroy
  request itself, every run in which \<^verbatim>\<open>start_sandbox\<close> returned a handle issues exactly one
  destroy request for it, also when the command inside the block fails.
\<close>

theorem scoped_destroy_once:
  "events (with_block s block rs) =
     events (block s rs) @ [Request (base_url (manager s)) DELETE (Destroy (name s))] \<and>
   length (filter (is_destroy_of s) (events (with_block s block rs))) =
     Suc (length (filter (is_destroy_of s) (events (block s rs)))) \<and>
   (\<forall>j. next_reply rs = Success j \<longrightarrow>
      length (filter (is_destroy_of (Sandbox (SandboxManager BASE_URL) ''auto-cleanup-example''))
        (events (context_manager_example rs))) = 1)"
  by (simp add: with_block_events context_manager_destroys)

theorem scoped_destroy_once_witness:
  "result (context_manager_example [Success JNull]) = Inl ServiceUnavailable \<and>
   length (filter (is_destroy_of (Sandbox (SandboxManager BASE_URL) ''auto-cleanup-example''))
     (events (context_manager_example [Success JNull]))) = 1"
proof -
  have "result (context_manager_example [Success JNull]) = Inl ServiceUnavailable"
    by (simp add: context_manager_example_def Let_def seq_with_block print_def)
  moreover have "next_reply [Success JNull] = Success JNull" by simp
  with scoped_destroy_once [of _ _ "[Success JNull]"]
  have "length (filter (is_destroy_of (Sandbox (SandboxManager BASE_URL) ''auto-cleanup-example''))
     (events (context_manager_example [Success JNull]))) = 1"
    by blast
  ultimately show ?thesis by blast
qed

end
